theory Spec2Isabelle
  imports Complex_Main
begin

section \<open>Python values used by the date picker\<close>

text \<open>
  A Python \<open>str\<close> is a sequence of Unicode code points. Button labels of the picker hold
  Persian letters and an emoji, so a character is modelled as its code point (a natural
  number) and a string as the list of its code points. \<open>lit\<close> writes an ASCII literal.
  Python integers are unbounded: \<open>int\<close>.
\<close>

type_synonym pychar = nat
type_synonym pystr = "pychar list"

definition lit :: "string \<Rightarrow> pystr" where
  "lit s = map of_char s"

text \<open>The two exceptions the code can raise: \<open>int()\<close> and tuple unpacking raise
  \<open>ValueError\<close> (as does the \<open>JalaliDate\<close> constructor), list indexing raises
  \<open>IndexError\<close>.\<close>

datatype error = ValueError | IndexError

subsection \<open>\<open>str(n)\<close> and the \<open>{n}\<close> of an f-string, for an integer\<close>

fun digits :: "nat \<Rightarrow> pystr" where
  "digits n = (if n < 10 then [48 + n] else digits (n div 10) @ [48 + n mod 10])"

declare digits.simps [simp del]

definition py_str :: "int \<Rightarrow> pystr" where
  "py_str i = (if i < 0 then 45 # digits (nat (- i)) else digits (nat i))"

subsection \<open>List indexing \<open>xs[i]\<close>\<close>

text \<open>A negative index counts from the end; an index outside \<open>[-len, len)\<close> raises
  \<open>IndexError\<close>.\<close>

definition py_getitem :: "'a list \<Rightarrow> int \<Rightarrow> error + 'a" where
  "py_getitem xs i =
     (if 0 \<le> i \<and> i < int (length xs) then Inr (xs ! nat i)
      else if - int (length xs) \<le> i \<and> i < 0 then Inr (xs ! nat (int (length xs) + i))
      else Inl IndexError)"

subsection \<open>\<open>s.split(sep)\<close> and \<open>s.startswith(p)\<close>\<close>

text \<open>Splitting at a one-character separator: \<open>n\<close> separators give \<open>n + 1\<close> fields, empty
  fields included; the empty string gives one empty field.\<close>

fun py_split :: "pychar \<Rightarrow> pystr \<Rightarrow> pystr list" where
  "py_split sep [] = [[]]"
| "py_split sep (c # cs) =
     (if c = sep then [] # py_split sep cs
      else (case py_split sep cs of
              [] \<Rightarrow> [[c]]
            | f # fs \<Rightarrow> (c # f) # fs))"

fun startswith :: "pystr \<Rightarrow> pystr \<Rightarrow> bool" where
  "startswith s [] = True"
| "startswith [] (p # ps) = False"
| "startswith (c # cs) (p # ps) = (c = p \<and> startswith cs ps)"

section \<open>What the module imports\<close>

text \<open>
  The picker imports \<open>JalaliDate\<close> from the \<open>persiantools\<close> library and relies on the
  interpreter's Unicode tables inside \<open>int()\<close>. Neither is part of the repository, so both
  are parameters of the model, collected in one record:
  \<^item> \<open>date_ok y m d\<close>: the constructor \<open>JalaliDate(y, m, d)\<close> accepts its arguments
    (it raises \<open>ValueError\<close> otherwise);
  \<^item> \<open>gregorian_weekday date\<close>: \<open>date.to_gregorian().weekday()\<close>, 0 = Monday .. 6 = Sunday;
  \<^item> \<open>is_leap y\<close>: \<open>JalaliDate.is_leap(y)\<close>;
  \<^item> \<open>today\<close>: \<open>JalaliDate.today()\<close>;
  \<^item> \<open>unicode_space c\<close>, \<open>unicode_decimal c\<close>: for a code point from 127 on, whether it is
    white space, and its decimal digit value (0..9) if it is a decimal digit.
\<close>

record jalali_date =
  year :: int
  month :: int
  day :: int

record env =
  date_ok :: "int \<Rightarrow> int \<Rightarrow> int \<Rightarrow> bool"
  gregorian_weekday :: "jalali_date \<Rightarrow> int"
  is_leap :: "int \<Rightarrow> bool"
  today :: jalali_date
  unicode_space :: "pychar \<Rightarrow> bool"
  unicode_decimal :: "pychar \<Rightarrow> nat option"

definition JalaliDate :: "env \<Rightarrow> int \<Rightarrow> int \<Rightarrow> int \<Rightarrow> error + jalali_date" where
  "JalaliDate E y m d =
     (if date_ok E y m d then Inr \<lparr>year = y, month = m, day = d\<rparr> else Inl ValueError)"

subsection \<open>\<open>int(s)\<close> for a string\<close>

text \<open>
  \<open>int(s)\<close> in base 10: white space around the number is dropped, one sign may precede
  the digits, and single underscores may separate digits. Below 127 only the ASCII white
  space characters and the digits \<open>0\<close>..\<open>9\<close> count; from 127 on the Unicode tables decide.
  Anything else raises \<open>ValueError\<close>.
\<close>

definition ascii_space :: "pychar \<Rightarrow> bool" where
  "ascii_space c = (c = 32 \<or> (9 \<le> c \<and> c \<le> 13))"

definition is_space :: "env \<Rightarrow> pychar \<Rightarrow> bool" where
  "is_space E c = (ascii_space c \<or> (127 \<le> c \<and> unicode_space E c))"

definition decimal_value :: "env \<Rightarrow> pychar \<Rightarrow> nat option" where
  "decimal_value E c =
     (if 48 \<le> c \<and> c \<le> 57 then Some (c - 48)
      else if 127 \<le> c then unicode_decimal E c
      else None)"

definition py_strip :: "env \<Rightarrow> pystr \<Rightarrow> pystr" where
  "py_strip E s = rev (dropWhile (is_space E) (rev (dropWhile (is_space E) s)))"

fun int_digits :: "env \<Rightarrow> int \<Rightarrow> pystr \<Rightarrow> error + int" where
  "int_digits E acc [] = Inr acc"
| "int_digits E acc (c # cs) =
     (if c = 95 then
        (case cs of
           [] \<Rightarrow> Inl ValueError
         | d # ds \<Rightarrow>
             (case decimal_value E d of
                None \<Rightarrow> Inl ValueError
              | Some v \<Rightarrow> int_digits E (acc * 10 + int v) ds))
      else
        (case decimal_value E c of
           None \<Rightarrow> Inl ValueError
         | Some v \<Rightarrow> int_digits E (acc * 10 + int v) cs))"

definition int_unsigned :: "env \<Rightarrow> pystr \<Rightarrow> error + int" where
  "int_unsigned E s =
     (case s of
        [] \<Rightarrow> Inl ValueError
      | c # cs \<Rightarrow>
          (case decimal_value E c of
             None \<Rightarrow> Inl ValueError
           | Some v \<Rightarrow> int_digits E (int v) cs))"

definition py_int :: "env \<Rightarrow> pystr \<Rightarrow> error + int" where
  "py_int E s =
     (case py_strip E s of
        [] \<Rightarrow> Inl ValueError
      | c # cs \<Rightarrow>
          if c = 45 then
            (case int_unsigned E cs of Inl e \<Rightarrow> Inl e | Inr v \<Rightarrow> Inr (- v))
          else if c = 43 then int_unsigned E cs
          else int_unsigned E (c # cs))"

text \<open>
  \<open>a, b = map(int, fields)\<close> and \<open>a, b, c = map(int, fields)\<close>: every field is converted
  and the number of fields must be the number of targets. A field that does not convert, a
  missing field and a surplus field all raise \<open>ValueError\<close>, so the order in which Python
  meets them does not show in the result.
\<close>

definition unpack2 :: "env \<Rightarrow> pystr list \<Rightarrow> error + int \<times> int" where
  "unpack2 E parts =
     (case parts of
        [a, b] \<Rightarrow>
          (case py_int E a of
             Inl e \<Rightarrow> Inl e
           | Inr y \<Rightarrow> (case py_int E b of Inl e \<Rightarrow> Inl e | Inr m \<Rightarrow> Inr (y, m)))
      | _ \<Rightarrow> Inl ValueError)"

definition unpack3 :: "env \<Rightarrow> pystr list \<Rightarrow> error + int \<times> int \<times> int" where
  "unpack3 E parts =
     (case parts of
        [a, b, c] \<Rightarrow>
          (case py_int E a of
             Inl e \<Rightarrow> Inl e
           | Inr y \<Rightarrow>
               (case py_int E b of
                  Inl e \<Rightarrow> Inl e
                | Inr m \<Rightarrow> (case py_int E c of Inl e \<Rightarrow> Inl e | Inr d \<Rightarrow> Inr (y, m, d))))
      | _ \<Rightarrow> Inl ValueError)"

section \<open>The class \<open>PersianDatePicker\<close>\<close>

text \<open>An \<open>InlineKeyboardButton(text, callback_data=...)\<close>, and the keyboard handed to
  \<open>InlineKeyboardMarkup\<close>: a list of rows of buttons.\<close>

record button =
  btn_text :: pystr
  callback_data :: pystr

type_synonym keyboard = "button list list"

text \<open>The attributes of the object. \<open>holidays\<close> is the dictionary read from
  \<open>persian_holidays.json\<close>, or the empty dictionary when the file cannot be read.\<close>

record picker =
  callback_pattern :: pystr
  weekdays :: "pystr list"
  holidays :: "pystr \<rightharpoonup> pystr"

definition init :: "pystr \<Rightarrow> (pystr \<rightharpoonup> pystr) \<Rightarrow> picker" where
  "init pattern loaded =
     \<lparr>callback_pattern = pattern,
      weekdays = [[1588], [1740], [1583], [1587], [1670], [1662], [1580]],
      holidays = loaded\<rparr>"

definition months :: "pystr list" where
  "months =
     [[1601, 1585, 1608, 1585, 1583, 1740, 1606],
      [1575, 1585, 1583, 1740, 1576, 1607, 1588, 1578],
      [1582, 1585, 1583, 1575, 1583],
      [1578, 1740, 1585],
      [1605, 1585, 1583, 1575, 1583],
      [1588, 1607, 1585, 1740, 1608, 1585],
      [1605, 1607, 1585],
      [1570, 1576, 1575, 1606],
      [1570, 1584, 1585],
      [1583, 1740],
      [1576, 1607, 1605, 1606],
      [1575, 1587, 1601, 1606, 1583]]"

definition get_persian_month_name :: "int \<Rightarrow> error + pystr" where
  "get_persian_month_name m = py_getitem months (m - 1)"

definition date_str :: "jalali_date \<Rightarrow> pystr" where
  "date_str date = py_str (year date) @ lit ''/'' @ py_str (month date) @ lit ''/'' @ py_str (day date)"

definition is_holiday :: "env \<Rightarrow> picker \<Rightarrow> jalali_date \<Rightarrow> bool" where
  "is_holiday E self date =
     (holidays self (date_str date) \<noteq> None \<or> gregorian_weekday E date = 4)"

subsection \<open>\<open>create_calendar\<close>\<close>

definition blank :: button where
  "blank = \<lparr>btn_text = lit '' '', callback_data = lit ''ignore''\<rparr>"

definition nav_data :: "picker \<Rightarrow> string \<Rightarrow> int \<Rightarrow> int \<Rightarrow> pystr" where
  "nav_data self action y m =
     callback_pattern self @ lit ''_'' @ lit action @ lit ''_'' @ py_str y @ lit ''_'' @ py_str m"

definition day_data :: "picker \<Rightarrow> int \<Rightarrow> int \<Rightarrow> int \<Rightarrow> pystr" where
  "day_data self y m d =
     callback_pattern self @ lit ''_day_'' @ py_str y @ lit ''_'' @ py_str m @ lit ''_'' @ py_str d"

definition day_button :: "env \<Rightarrow> picker \<Rightarrow> int \<Rightarrow> int \<Rightarrow> int \<Rightarrow> jalali_date \<Rightarrow> button" where
  "day_button E self y m d date =
     \<lparr>btn_text = (if is_holiday E self date then 128308 # py_str d else py_str d),
      callback_data = day_data self y m d\<rparr>"

text \<open>The loop over \<open>range(1, days_in_month + 1)\<close>: the state is the keyboard built so
  far and the row being filled.\<close>

fun add_days ::
  "env \<Rightarrow> picker \<Rightarrow> int \<Rightarrow> int \<Rightarrow> int list \<Rightarrow> keyboard \<times> button list \<Rightarrow>
   error + keyboard \<times> button list" where
  "add_days E self y m [] st = Inr st"
| "add_days E self y m (d # ds) (kb, current_row) =
     (case JalaliDate E y m d of
        Inl e \<Rightarrow> Inl e
      | Inr date \<Rightarrow>
          (let row = current_row @ [day_button E self y m d date]
           in if length row = 7 then add_days E self y m ds (kb @ [row], [])
              else add_days E self y m ds (kb, row)))"

text \<open>The loop \<open>while len(current_row) < 7: current_row.append(blank)\<close>.\<close>

function pad_row :: "button list \<Rightarrow> button list" where
  "pad_row row = (if length row < 7 then pad_row (row @ [blank]) else row)"
  by pat_completeness auto
termination
  by (relation "measure (\<lambda>row. 7 - length row)") auto

declare pad_row.simps [simp del]

definition days_in_month :: "env \<Rightarrow> int \<Rightarrow> int \<Rightarrow> int" where
  "days_in_month E y m =
     (if m \<le> 6 then 31
      else if m \<le> 11 then 30
      else (if \<not> is_leap E y then 29 else 30))"

definition start_weekday :: "env \<Rightarrow> jalali_date \<Rightarrow> int" where
  "start_weekday E first_day = (gregorian_weekday E first_day + 2) mod 7"

text \<open>\<open>if not year or not month\<close>: an argument that is \<open>None\<close> or \<open>0\<close> makes both default
  to today's.\<close>

definition resolve :: "env \<Rightarrow> int option \<Rightarrow> int option \<Rightarrow> int \<times> int" where
  "resolve E y0 m0 =
     (case (y0, m0) of
        (Some y, Some m) \<Rightarrow>
          if y = 0 \<or> m = 0 then (year (today E), month (today E)) else (y, m)
      | _ \<Rightarrow> (year (today E), month (today E)))"

definition header_row :: "picker \<Rightarrow> pystr \<Rightarrow> int \<Rightarrow> int \<Rightarrow> button list" where
  "header_row self name y m =
     [\<lparr>btn_text = [8592], callback_data = nav_data self ''prev'' y m\<rparr>,
      \<lparr>btn_text = name @ lit '' '' @ py_str y, callback_data = lit ''ignore''\<rparr>,
      \<lparr>btn_text = [8594], callback_data = nav_data self ''next'' y m\<rparr>]"

definition weekday_row :: "picker \<Rightarrow> button list" where
  "weekday_row self = map (\<lambda>x. \<lparr>btn_text = x, callback_data = lit ''ignore''\<rparr>) (weekdays self)"

definition create_calendar :: "env \<Rightarrow> picker \<Rightarrow> int option \<Rightarrow> int option \<Rightarrow> error + keyboard" where
  "create_calendar E self y0 m0 =
     (case resolve E y0 m0 of (y, m) \<Rightarrow>
        (case get_persian_month_name m of
           Inl e \<Rightarrow> Inl e
         | Inr name \<Rightarrow>
             (case JalaliDate E y m 1 of
                Inl e \<Rightarrow> Inl e
              | Inr first_day \<Rightarrow>
                  (case add_days E self y m [1 .. days_in_month E y m]
                          ([header_row self name y m, weekday_row self],
                           replicate (nat (start_weekday E first_day)) blank) of
                     Inl e \<Rightarrow> Inl e
                   | Inr (kb, current_row) \<Rightarrow>
                       Inr (if current_row \<noteq> [] then kb @ [pad_row current_row] else kb)))))"

subsection \<open>\<open>process_selection\<close>\<close>

text \<open>
  What the method does to the callback query, in order, and what it returns or raises.
  \<open>query.answer()\<close> comes first in every case; \<open>EditReplyMarkup kb\<close> is
  \<open>query.edit_message_reply_markup(reply_markup=kb)\<close>. The return value \<open>None\<close> is
  \<open>Inr None\<close>, a returned string \<open>s\<close> is \<open>Inr (Some s)\<close>.
\<close>

datatype effect = Answer | EditReplyMarkup keyboard

type_synonym outcome = "effect list \<times> (error + pystr option)"

definition rerender :: "env \<Rightarrow> picker \<Rightarrow> int \<Rightarrow> int \<Rightarrow> outcome" where
  "rerender E self y m =
     (case create_calendar E self (Some y) (Some m) of
        Inl e \<Rightarrow> ([Answer], Inl e)
      | Inr kb \<Rightarrow> ([Answer, EditReplyMarkup kb], Inr None))"

definition process_selection :: "env \<Rightarrow> picker \<Rightarrow> pystr \<Rightarrow> outcome" where
  "process_selection E self data =
     (if \<not> startswith data (callback_pattern self) then ([Answer], Inr None)
      else
        (case py_getitem (py_split 95 data) 1 of
           Inl e \<Rightarrow> ([Answer], Inl e)
         | Inr action \<Rightarrow>
             if action = lit ''ignore'' \<or> action = [] then ([Answer], Inr None)
             else if action \<in> set [lit ''prev'', lit ''next''] then
               (case unpack2 E (drop 2 (py_split 95 data)) of
                  Inl e \<Rightarrow> ([Answer], Inl e)
                | Inr (y, m) \<Rightarrow>
                    if action = lit ''prev'' then
                      (if m - 1 < 1 then rerender E self (y - 1) 12
                       else rerender E self y (m - 1))
                    else
                      (if m + 1 > 12 then rerender E self (y + 1) 1
                       else rerender E self y (m + 1)))
             else if action = lit ''day'' then
               (case unpack3 E (drop 2 (py_split 95 data)) of
                  Inl e \<Rightarrow> ([Answer], Inl e)
                | Inr (y, m, d) \<Rightarrow>
                    ([Answer], Inr (Some (py_str y @ lit ''/'' @ py_str m @ lit ''/'' @ py_str d))))
             else ([Answer], Inr None)))"

section \<open>Notions used to state the properties\<close>

text \<open>
  A month \<open>(y, m)\<close> is valid when \<open>m\<close> is a month number, \<open>y\<close> is not the \<open>0\<close> that
  \<open>create_calendar\<close> reads as an omitted argument, and the library accepts every day
  that \<open>create_calendar\<close> asks it for.
\<close>

definition valid_month :: "env \<Rightarrow> int \<Rightarrow> int \<Rightarrow> bool" where
  "valid_month E y m =
     (y \<noteq> 0 \<and> 1 \<le> m \<and> m \<le> 12 \<and> list_all (date_ok E y m) [1 .. days_in_month E y m])"

text \<open>The button that \<open>create_calendar\<close> makes for day \<open>d\<close> of month \<open>(y, m)\<close>.\<close>

definition day_cell :: "env \<Rightarrow> picker \<Rightarrow> int \<Rightarrow> int \<Rightarrow> int \<Rightarrow> button" where
  "day_cell E self y m d = day_button E self y m d \<lparr>year = y, month = m, day = d\<rparr>"

text \<open>\<open>'_'.join(fields)\<close>: a token written field by field.\<close>

fun join_fields :: "pystr list \<Rightarrow> pystr" where
  "join_fields [] = []"
| "join_fields [f] = f"
| "join_fields (f # g # fs) = f @ 95 # join_fields (g # fs)"

subsection \<open>An instance of the parameters, for the examples\<close>

text \<open>
  The arithmetic Jalali calendar with its 2820-year cycle: \<open>sample_leap\<close> is its leap
  rule and \<open>sample_weekday\<close> counts the days since the start of year 1, shifted so that
  1 Farvardin 1402 (21 March 2023) is a Tuesday. The Unicode tables hold the no-break
  spaces and the Arabic-Indic and Persian digits only.
\<close>

definition sample_leap :: "int \<Rightarrow> bool" where
  "sample_leap y = (((y + 2346) * 683) mod 2820 < 683)"

definition sample_weekday :: "jalali_date \<Rightarrow> int" where
  "sample_weekday date =
     (365 * (year date - 1) + ((year date + 2345) * 683) div 2820
      + (if month date \<le> 7 then 31 * (month date - 1) else 186 + 30 * (month date - 7))
      + day date + 2) mod 7"

definition sample_env :: env where
  "sample_env =
     \<lparr>date_ok = (\<lambda>y m d. 1 \<le> y \<and> y \<le> 9377 \<and> 1 \<le> m \<and> m \<le> 12 \<and> 1 \<le> d \<and>
                  d \<le> (if m \<le> 6 then 31 else if m \<le> 11 then 30
                        else if sample_leap y then 30 else 29)),
      gregorian_weekday = sample_weekday,
      is_leap = sample_leap,
      today = \<lparr>year = 1402, month = 1, day = 1\<rparr>,
      unicode_space = (\<lambda>c. c = 133 \<or> c = 160),
      unicode_decimal =
        (\<lambda>c. if 1632 \<le> c \<and> c \<le> 1641 then Some (c - 1632)
              else if 1776 \<le> c \<and> c \<le> 1785 then Some (c - 1776)
              else None)\<rparr>"

text \<open>A picker with the prefix \<open>cal\<close> and one entry in its holiday dictionary.\<close>

definition sample_picker :: picker where
  "sample_picker = init (lit ''cal'') [lit ''1402/1/1'' \<mapsto> lit ''Nowruz'']"

section \<open>Strings: conversion, splitting, prefixes\<close>

lemma digits_range: "c \<in> set (digits n) \<Longrightarrow> 48 \<le> c \<and> c \<le> 57"
proof (induction n rule: digits.induct)
  case (1 n)
  show ?case
  proof (cases "n < 10")
    case True
    with "1.prems" show ?thesis by (simp add: digits.simps [of n])
  next
    case False
    with "1.prems" have "c \<in> set (digits (n div 10)) \<or> c = 48 + n mod 10"
      by (auto simp: digits.simps [of n])
    then show ?thesis
    proof
      assume "c \<in> set (digits (n div 10))"
      with False "1.IH" show ?thesis by simp
    next
      assume "c = 48 + n mod 10"
      moreover have "n mod 10 < 10" by simp
      ultimately show ?thesis by linarith
    qed
  qed
qed

lemma digits_nonempty: "digits n \<noteq> []"
  by (simp add: digits.simps [of n])

lemma py_str_range: "c \<in> set (py_str i) \<Longrightarrow> c = 45 \<or> (48 \<le> c \<and> c \<le> 57)"
  by (auto simp: py_str_def dest: digits_range split: if_splits)

lemma py_str_no_sep: "95 \<notin> set (py_str i)"
  using py_str_range [of 95 i] by auto

lemma py_str_nonempty: "py_str i \<noteq> []"
  by (simp add: py_str_def digits_nonempty)

lemma decimal_value_digit: "d < 10 \<Longrightarrow> decimal_value E (48 + d) = Some d"
  by (simp add: decimal_value_def)

lemma int_digits_snoc:
  "int_digits E acc s = Inr v \<Longrightarrow> d < 10 \<Longrightarrow>
   int_digits E acc (s @ [48 + d]) = Inr (v * 10 + int d)"
proof (induction E acc s rule: int_digits.induct)
  case (1 E acc)
  then show ?case by (simp add: decimal_value_digit)
next
  case (2 E acc c cs)
  then show ?case
    by (auto simp: decimal_value_digit split: if_splits list.splits option.splits)
qed

lemma int_unsigned_snoc:
  "int_unsigned E s = Inr v \<Longrightarrow> d < 10 \<Longrightarrow>
   int_unsigned E (s @ [48 + d]) = Inr (v * 10 + int d)"
  by (auto simp: int_unsigned_def int_digits_snoc split: list.splits option.splits)

lemma int_unsigned_digits: "int_unsigned E (digits n) = Inr (int n)"
proof (induction n rule: digits.induct)
  case (1 n)
  show ?case
  proof (cases "n < 10")
    case True
    then show ?thesis
      by (simp add: digits.simps [of n] int_unsigned_def decimal_value_digit)
  next
    case False
    with "1.IH" have "int_unsigned E (digits (n div 10)) = Inr (int (n div 10))" by simp
    then have "int_unsigned E (digits (n div 10) @ [48 + n mod 10]) =
        Inr (int (n div 10) * 10 + int (n mod 10))"
      by (rule int_unsigned_snoc) simp
    moreover have "int (n div 10) * 10 + int (n mod 10) = int n"
      by (simp add: zdiv_int zmod_int)
    ultimately show ?thesis using False by (simp add: digits.simps [of n])
  qed
qed

lemma strip_id:
  assumes "s \<noteq> []" "\<not> P (hd s)" "\<not> P (last s)"
  shows "rev (dropWhile P (rev (dropWhile P s))) = s"
proof -
  from assms have a: "dropWhile P s = s" by (cases s) auto
  from assms have "rev s \<noteq> []" "\<not> P (hd (rev s))" by (simp_all add: hd_rev)
  then have "dropWhile P (rev s) = rev s" by (cases "rev s") auto
  with a show ?thesis by simp
qed

lemma not_space_digit: "48 \<le> c \<Longrightarrow> c \<le> 57 \<Longrightarrow> \<not> is_space E c"
  by (auto simp: is_space_def ascii_space_def)

lemma py_strip_digits: "py_strip E (digits n) = digits n"
  unfolding py_strip_def
proof (rule strip_id)
  show "digits n \<noteq> []" by (rule digits_nonempty)
  have "hd (digits n) \<in> set (digits n)" "last (digits n) \<in> set (digits n)"
    using digits_nonempty by simp_all
  then show "\<not> is_space E (hd (digits n))" "\<not> is_space E (last (digits n))"
    using digits_range not_space_digit by blast+
qed

lemma hd_digits: "48 \<le> hd (digits n) \<and> hd (digits n) \<le> 57"
  using digits_range [of "hd (digits n)" n] digits_nonempty [of n] by simp

lemma py_int_digits: "py_int E (digits n) = Inr (int n)"
proof -
  obtain c cs where eq: "digits n = c # cs"
    using digits_nonempty [of n] by (cases "digits n") auto
  with hd_digits [of n] have "c \<noteq> 45" "c \<noteq> 43" by auto
  moreover have "py_strip E (c # cs) = c # cs"
    using py_strip_digits [of E n] by (simp add: eq)
  moreover have "int_unsigned E (c # cs) = Inr (int n)"
    using int_unsigned_digits [of E n] by (simp add: eq)
  ultimately show ?thesis by (simp add: py_int_def eq)
qed

lemma py_strip_minus_digits: "py_strip E (45 # digits n) = 45 # digits n"
  unfolding py_strip_def
proof (rule strip_id)
  show "45 # digits n \<noteq> []" by simp
  show "\<not> is_space E (hd (45 # digits n))" by (simp add: is_space_def ascii_space_def)
  have "last (digits n) \<in> set (digits n)" using digits_nonempty by simp
  then have "\<not> is_space E (last (digits n))"
    using digits_range not_space_digit by blast
  then show "\<not> is_space E (last (45 # digits n))"
    by (simp add: digits_nonempty)
qed

text \<open>Converting an integer to a string and back gives the integer.\<close>

lemma py_int_py_str: "py_int E (py_str i) = Inr i"
proof (cases "i < 0")
  case True
  then show ?thesis
    by (simp add: py_str_def py_int_def py_strip_minus_digits int_unsigned_digits)
next
  case False
  then show ?thesis by (simp add: py_str_def py_int_digits)
qed

lemma py_split_nonempty: "py_split sep s \<noteq> []"
  by (induction s) (auto split: list.splits)

lemma py_split_no_sep: "sep \<notin> set s \<Longrightarrow> py_split sep s = [s]"
  by (induction s) auto

lemma py_split_field: "sep \<notin> set a \<Longrightarrow> py_split sep (a @ sep # r) = a # py_split sep r"
  by (induction a) (auto split: list.splits)

lemma startswith_append: "startswith (p @ r) p"
  by (induction p) auto

lemma pad_row_eq: "pad_row row = row @ replicate (7 - length row) blank"
proof (induction row rule: pad_row.induct)
  case (1 row)
  show ?case
  proof (cases "length row < 7")
    case True
    with "1.IH" have "pad_row (row @ [blank]) =
        row @ [blank] @ replicate (7 - length row - 1) blank" by simp
    also have "[blank] @ replicate (7 - length row - 1) blank = replicate (7 - length row) blank"
      using True by (cases "7 - length row") auto
    finally show ?thesis using True by (simp add: pad_row.simps [of row])
  next
    case False
    then show ?thesis by (simp add: pad_row.simps [of row])
  qed
qed

section \<open>The grid built by \<open>create_calendar\<close>\<close>

lemma add_days_ok:
  assumes "list_all (date_ok E y m) ds" "length row < 7"
  shows "\<exists>new row'. add_days E self y m ds (kb, row) = Inr (kb @ new, row') \<and>
           length row' < 7 \<and> (\<forall>r\<in>set new. length r = 7) \<and>
           concat new @ row' = row @ map (day_cell E self y m) ds"
  using assms
proof (induction ds arbitrary: kb row)
  case Nil
  then show ?case by simp
next
  case (Cons d ds)
  let ?row1 = "row @ [day_cell E self y m d]"
  from Cons.prems have ok: "date_ok E y m d" and rest: "list_all (date_ok E y m) ds" by simp_all
  show ?case
  proof (cases "length ?row1 = 7")
    case True
    from Cons.IH [OF rest, of "[]" "kb @ [?row1]"]
    obtain new row' where step: "add_days E self y m ds (kb @ [?row1], []) = Inr ((kb @ [?row1]) @ new, row')"
      and inv: "length row' < 7" "\<forall>r\<in>set new. length r = 7"
      and flat: "concat new @ row' = [] @ map (day_cell E self y m) ds"
      by auto
    have "add_days E self y m (d # ds) (kb, row) = Inr (kb @ (?row1 # new), row')"
      using ok True step by (simp add: JalaliDate_def day_cell_def)
    moreover have "\<forall>r\<in>set (?row1 # new). length r = 7" using True inv by simp
    moreover have "concat (?row1 # new) @ row' = row @ map (day_cell E self y m) (d # ds)"
      using flat by simp
    ultimately show ?thesis using inv(1) by blast
  next
    case False
    with Cons.prems have short: "length ?row1 < 7" by simp
    from Cons.IH [OF rest short, of kb]
    obtain new row' where step: "add_days E self y m ds (kb, ?row1) = Inr (kb @ new, row')"
      and inv: "length row' < 7" "\<forall>r\<in>set new. length r = 7"
      and flat: "concat new @ row' = ?row1 @ map (day_cell E self y m) ds"
      by auto
    have "add_days E self y m (d # ds) (kb, row) = Inr (kb @ new, row')"
      using ok False step by (simp add: JalaliDate_def day_cell_def)
    moreover have "concat new @ row' = row @ map (day_cell E self y m) (d # ds)"
      using flat by simp
    ultimately show ?thesis using inv by blast
  qed
qed

lemma start_weekday_range: "0 \<le> start_weekday E fd \<and> start_weekday E fd \<le> 6"
  by (simp add: start_weekday_def)

lemma valid_month_first: "valid_month E y m \<Longrightarrow> date_ok E y m 1"
  by (auto simp: valid_month_def days_in_month_def list_all_iff)

lemma month_name_ok: "1 \<le> m \<Longrightarrow> m \<le> 12 \<Longrightarrow> get_persian_month_name m = Inr (months ! nat (m - 1))"
  by (simp add: get_persian_month_name_def py_getitem_def months_def)

text \<open>The grid of a valid month: the two header rows, then rows of seven cells whose
  concatenation is the leading blanks, the day cells in order, and the trailing blanks.\<close>

lemma create_calendar_grid:
  assumes "valid_month E y m"
  shows "\<exists>body pad. create_calendar E self (Some y) (Some m) =
             Inr (header_row self (months ! nat (m - 1)) y m # weekday_row self # body) \<and>
           (\<forall>r\<in>set body. length r = 7) \<and> pad < 7 \<and>
           concat body =
             replicate (nat (start_weekday E \<lparr>year = y, month = m, day = 1\<rparr>)) blank @
             map (day_cell E self y m) [1 .. days_in_month E y m] @ replicate pad blank"
proof -
  let ?fd = "\<lparr>year = y, month = m, day = 1\<rparr>"
  let ?lead = "replicate (nat (start_weekday E ?fd)) blank"
  let ?hdr = "[header_row self (months ! nat (m - 1)) y m, weekday_row self]"
  let ?cells = "map (day_cell E self y m) [1 .. days_in_month E y m]"
  from assms have y0: "y \<noteq> 0" and m1: "1 \<le> m" and m12: "m \<le> 12"
    and days: "list_all (date_ok E y m) [1 .. days_in_month E y m]"
    by (simp_all add: valid_month_def)
  have res: "resolve E (Some y) (Some m) = (y, m)" using y0 m1 by (simp add: resolve_def)
  have name: "get_persian_month_name m = Inr (months ! nat (m - 1))" using m1 m12 by (rule month_name_ok)
  have first: "JalaliDate E y m 1 = Inr ?fd"
    using valid_month_first [OF assms] by (simp add: JalaliDate_def)
  have "length ?lead < 7" using start_weekday_range [of E ?fd] by (simp add: nat_less_iff)
  from add_days_ok [OF days this, of self ?hdr]
  obtain new row' where step: "add_days E self y m [1 .. days_in_month E y m] (?hdr, ?lead) = Inr (?hdr @ new, row')"
    and short: "length row' < 7" and full: "\<forall>r\<in>set new. length r = 7"
    and flat: "concat new @ row' = ?lead @ ?cells"
    by blast
  have cc: "create_calendar E self (Some y) (Some m) =
      Inr (if row' \<noteq> [] then (?hdr @ new) @ [pad_row row'] else ?hdr @ new)"
    by (simp add: create_calendar_def res name first step)
  show ?thesis
  proof (cases "row' = []")
    case True
    with cc flat full show ?thesis
      by (intro exI [of _ new] exI [of _ 0]) simp
  next
    case False
    let ?body = "new @ [pad_row row']"
    have "concat ?body = (concat new @ row') @ replicate (7 - length row') blank"
      by (simp add: pad_row_eq)
    then have "concat ?body = ?lead @ ?cells @ replicate (7 - length row') blank"
      using flat by simp
    moreover have "\<forall>r\<in>set ?body. length r = 7" using full short by (auto simp: pad_row_eq)
    moreover have "7 - length row' < 7" using False by (cases row') auto
    ultimately show ?thesis using cc False
      by (intro exI [of _ ?body] exI [of _ "7 - length row'"]) simp
  qed
qed

lemma length_concat_rows: "\<forall>r\<in>set rows. length r = k \<Longrightarrow> length (concat rows) = k * length rows"
  by (induction rows) auto

section \<open>Decoding a token\<close>

lemma split_join:
  "fs \<noteq> [] \<Longrightarrow> \<forall>f\<in>set fs. 95 \<notin> set f \<Longrightarrow> py_split 95 (join_fields fs) = fs"
proof (induction fs rule: join_fields.induct)
  case 1
  then show ?case by simp
next
  case (2 f)
  then show ?case by (simp add: py_split_no_sep)
next
  case (3 f g fs)
  then show ?case by (simp add: py_split_field)
qed

lemma startswith_join: "startswith (join_fields (p # fs)) p"
proof (cases fs)
  case Nil
  then show ?thesis using startswith_append [of p "[]"] by simp
next
  case (Cons g gs)
  then show ?thesis using startswith_append [of p "95 # join_fields (g # gs)"] by simp
qed

lemma int_digits_error: "int_digits E acc s = Inl e \<Longrightarrow> e = ValueError"
  by (induction E acc s rule: int_digits.induct)
     (auto split: if_splits list.splits option.splits)

lemma int_unsigned_error: "int_unsigned E s = Inl e \<Longrightarrow> e = ValueError"
  by (auto simp: int_unsigned_def split: list.splits option.splits dest: int_digits_error)

lemma py_int_error: "py_int E s = Inl e \<Longrightarrow> e = ValueError"
  by (auto simp: py_int_def split: list.splits if_splits sum.splits dest: int_unsigned_error)

lemma unpack2_error: "unpack2 E fs = Inl e \<Longrightarrow> e = ValueError"
  by (auto simp: unpack2_def split: list.splits sum.splits dest: py_int_error)

lemma unpack3_error: "unpack3 E fs = Inl e \<Longrightarrow> e = ValueError"
  by (auto simp: unpack3_def split: list.splits sum.splits dest: py_int_error)

lemma unpack2_bad_field:
  assumes "f \<in> set fs" "py_int E f = Inl ValueError"
  shows "unpack2 E fs = Inl ValueError"
proof -
  have "\<not> (\<exists>v. unpack2 E fs = Inr v)"
    using assms by (auto simp: unpack2_def split: list.splits sum.splits)
  then show ?thesis using unpack2_error [of E fs] by (cases "unpack2 E fs") auto
qed

lemma unpack3_bad_field:
  assumes "f \<in> set fs" "py_int E f = Inl ValueError"
  shows "unpack3 E fs = Inl ValueError"
proof -
  have "\<not> (\<exists>v. unpack3 E fs = Inr v)"
    using assms by (auto simp: unpack3_def split: list.splits sum.splits)
  then show ?thesis using unpack3_error [of E fs] by (cases "unpack3 E fs") auto
qed

lemma getitem_1: "py_getitem (a # b # xs) 1 = Inr b"
  by (simp add: py_getitem_def)

text \<open>What the decoder does once the data is split into a prefix field, an action and
  arguments.\<close>

lemma process_day_split:
  assumes "startswith data (callback_pattern self)"
    and "py_split 95 data = p # lit ''day'' # args"
  shows "process_selection E self data =
     (case unpack3 E args of
        Inl e \<Rightarrow> ([Answer], Inl e)
      | Inr (y, m, d) \<Rightarrow>
          ([Answer], Inr (Some (py_str y @ lit ''/'' @ py_str m @ lit ''/'' @ py_str d))))"
  using assms by (simp add: process_selection_def getitem_1 lit_def)

lemma process_prev_split:
  assumes "startswith data (callback_pattern self)"
    and "py_split 95 data = p # lit ''prev'' # args"
  shows "process_selection E self data =
     (case unpack2 E args of
        Inl e \<Rightarrow> ([Answer], Inl e)
      | Inr (y, m) \<Rightarrow>
          if m - 1 < 1 then rerender E self (y - 1) 12 else rerender E self y (m - 1))"
  using assms by (simp add: process_selection_def getitem_1 lit_def split: sum.splits)

lemma process_next_split:
  assumes "startswith data (callback_pattern self)"
    and "py_split 95 data = p # lit ''next'' # args"
  shows "process_selection E self data =
     (case unpack2 E args of
        Inl e \<Rightarrow> ([Answer], Inl e)
      | Inr (y, m) \<Rightarrow>
          if m + 1 > 12 then rerender E self (y + 1) 1 else rerender E self y (m + 1))"
  using assms by (simp add: process_selection_def getitem_1 lit_def split: sum.splits)

lemma day_data_join:
  "callback_pattern self @ lit ''_day_'' @ fy @ lit ''_'' @ fm @ lit ''_'' @ fd =
   join_fields [callback_pattern self, lit ''day'', fy, fm, fd]"
  by (simp add: lit_def)

lemma nav_data_join:
  "nav_data self action y m = join_fields [callback_pattern self, lit action, py_str y, py_str m]"
  by (simp add: nav_data_def lit_def)

lemma lit_no_sep: "95 \<notin> set (lit ''day'')" "95 \<notin> set (lit ''prev'')" "95 \<notin> set (lit ''next'')"
  by (simp_all add: lit_def)

lemma select_day:
  assumes "95 \<notin> set (callback_pattern self)" "95 \<notin> set fy" "95 \<notin> set fm" "95 \<notin> set fd"
    and "py_int E fy = Inr y" "py_int E fm = Inr m" "py_int E fd = Inr d"
  shows "process_selection E self
           (callback_pattern self @ lit ''_day_'' @ fy @ lit ''_'' @ fm @ lit ''_'' @ fd) =
         ([Answer], Inr (Some (py_str y @ lit ''/'' @ py_str m @ lit ''/'' @ py_str d)))"
proof -
  let ?fs = "[callback_pattern self, lit ''day'', fy, fm, fd]"
  have sp: "py_split 95 (join_fields ?fs) = ?fs"
    using assms(1-4) lit_no_sep by (intro split_join) simp_all
  have "process_selection E self (join_fields ?fs) =
      ([Answer], Inr (Some (py_str y @ lit ''/'' @ py_str m @ lit ''/'' @ py_str d)))"
    using process_day_split [OF startswith_join sp, of E] assms(5-7)
    by (simp add: unpack3_def)
  then show ?thesis by (simp only: day_data_join)
qed

lemma nav_decoded:
  assumes "95 \<notin> set (callback_pattern self)"
  shows "process_selection E self (nav_data self ''prev'' y m) =
           (if m - 1 < 1 then rerender E self (y - 1) 12 else rerender E self y (m - 1))"
    and "process_selection E self (nav_data self ''next'' y m) =
           (if m + 1 > 12 then rerender E self (y + 1) 1 else rerender E self y (m + 1))"
proof -
  let ?p = "[callback_pattern self, lit ''prev'', py_str y, py_str m]"
  let ?n = "[callback_pattern self, lit ''next'', py_str y, py_str m]"
  have sp: "py_split 95 (join_fields ?p) = ?p" and sn: "py_split 95 (join_fields ?n) = ?n"
    using assms lit_no_sep py_str_no_sep by (intro split_join; simp)+
  show "process_selection E self (nav_data self ''prev'' y m) =
           (if m - 1 < 1 then rerender E self (y - 1) 12 else rerender E self y (m - 1))"
    using process_prev_split [OF startswith_join sp, of E]
    by (simp add: nav_data_join unpack2_def py_int_py_str)
  show "process_selection E self (nav_data self ''next'' y m) =
           (if m + 1 > 12 then rerender E self (y + 1) 1 else rerender E self y (m + 1))"
    using process_next_split [OF startswith_join sn, of E]
    by (simp add: nav_data_join unpack2_def py_int_py_str)
qed

lemma rerender_valid:
  assumes "valid_month E y m"
  shows "\<exists>kb. create_calendar E self (Some y) (Some m) = Inr kb \<and>
           rerender E self y m = ([Answer, EditReplyMarkup kb], Inr None)"
  using create_calendar_grid [OF assms, of self] by (auto simp: rerender_def)

lemma rerender_no_selection: "snd (rerender E self y m) \<noteq> Inr (Some s)"
  by (simp add: rerender_def split: sum.splits)

section \<open>Shape of the grid\<close>

lemma blank_fields: "btn_text blank = lit '' ''" "callback_data blank = lit ''ignore''"
  by (simp_all add: blank_def)

lemma py_str_not_blank: "py_str d \<noteq> lit '' ''"
proof
  assume "py_str d = lit '' ''"
  then have "32 \<in> set (py_str d)" by (simp add: lit_def)
  then show False using py_str_range [of 32 d] by simp
qed

lemma day_cell_text: "btn_text (day_cell E self y m d) \<noteq> lit '' ''"
  using py_str_not_blank [of d] by (simp add: day_cell_def day_button_def lit_def)

lemma day_cell_data: "callback_data (day_cell E self y m d) = day_data self y m d"
  by (simp add: day_cell_def day_button_def)

lemma filter_cells:
  "filter (\<lambda>b. btn_text b \<noteq> lit '' '')
     (replicate a blank @ map (day_cell E self y m) ds @ replicate p blank) =
   map (day_cell E self y m) ds"
proof -
  have "filter (\<lambda>b. btn_text b \<noteq> lit '' '') (map (day_cell E self y m) ds) =
      map (day_cell E self y m) ds"
    by (induction ds) (simp_all add: day_cell_text)
  then show ?thesis by (simp add: blank_fields)
qed

lemma days_in_month_cases: "days_in_month E y m = 29 \<or> days_in_month E y m = 30 \<or> days_in_month E y m = 31"
  by (simp add: days_in_month_def)

lemma ceiling_sevenths:
  fixes a :: int and n p :: nat
  assumes "7 * n = nat a + p" "p < 7" "0 \<le> a"
  shows "int n = \<lceil>real_of_int a / 7\<rceil>"
proof -
  have "\<lceil>real_of_int a / 7\<rceil> = - (- a div 7)"
    using ceiling_divide_eq_div [of a 7] by simp
  moreover from assms have "a = 7 * int n - int p" by linarith
  moreover have "- (- (7 * int n - int p) div 7) = int n"
    using assms(2) by linarith
  ultimately show ?thesis by simp
qed

text \<open>
  Claim C1. For every valid month, \<open>create_calendar\<close> returns a keyboard whose number of
  rows is 2 plus the ceiling of (offset + total) / 7, where offset is the column of day 1
  and total the number of days of the month; every row after the two header rows has
  exactly 7 cells; the cells that are not blank are the day cells of days 1 to total, in
  order, so there are total of them; and every blank cell carries the token \<open>ignore\<close>.
\<close>

theorem calendar_grid_shape:
  assumes "valid_month E y m"
  shows "\<exists>kb. create_calendar E self (Some y) (Some m) = Inr kb \<and>
     int (length kb) =
       2 + \<lceil>real_of_int (start_weekday E \<lparr>year = y, month = m, day = 1\<rparr> + days_in_month E y m) / 7\<rceil> \<and>
     (\<forall>row\<in>set (drop 2 kb). length row = 7) \<and>
     filter (\<lambda>b. btn_text b \<noteq> lit '' '') (concat (drop 2 kb)) =
       map (day_cell E self y m) [1 .. days_in_month E y m] \<and>
     int (length (filter (\<lambda>b. btn_text b \<noteq> lit '' '') (concat (drop 2 kb)))) = days_in_month E y m \<and>
     (\<forall>b\<in>set (concat (drop 2 kb)). btn_text b = lit '' '' \<longrightarrow> callback_data b = lit ''ignore'')"
proof -
  let ?off = "start_weekday E \<lparr>year = y, month = m, day = 1\<rparr>"
  let ?total = "days_in_month E y m"
  let ?cells = "map (day_cell E self y m) [1 .. ?total]"
  from create_calendar_grid [OF assms, of self]
  obtain body pad where cc: "create_calendar E self (Some y) (Some m) =
        Inr (header_row self (months ! nat (m - 1)) y m # weekday_row self # body)"
    and rows: "\<forall>r\<in>set body. length r = 7" and pad: "pad < 7"
    and flat: "concat body = replicate (nat ?off) blank @ ?cells @ replicate pad blank"
    by blast
  let ?kb = "header_row self (months ! nat (m - 1)) y m # weekday_row self # body"
  have body: "drop 2 ?kb = body" by simp
  have off: "0 \<le> ?off" using start_weekday_range [of E] by simp
  have total: "0 \<le> ?total" using days_in_month_cases [of E y m] by auto
  have "7 * length body = length (concat body)" using length_concat_rows [OF rows] by simp
  also have "\<dots> = nat ?off + nat ?total + pad" by (simp add: flat)
  also have "nat ?off + nat ?total = nat (?off + ?total)" using off total by (simp add: nat_add_distrib)
  finally have "int (length body) = \<lceil>real_of_int (?off + ?total) / 7\<rceil>"
    using pad off total by (intro ceiling_sevenths) simp_all
  then have count: "int (length ?kb) = 2 + \<lceil>real_of_int (?off + ?total) / 7\<rceil>" by simp
  have filt: "filter (\<lambda>b. btn_text b \<noteq> lit '' '') (concat (drop 2 ?kb)) = ?cells"
    by (simp only: body flat filter_cells)
  have len: "int (length (filter (\<lambda>b. btn_text b \<noteq> lit '' '') (concat (drop 2 ?kb)))) = ?total"
    using total by (simp only: filt) simp
  have blanks: "\<forall>b\<in>set (concat (drop 2 ?kb)). btn_text b = lit '' '' \<longrightarrow> callback_data b = lit ''ignore''"
    by (simp only: body flat) (auto simp: blank_fields day_cell_text)
  have rows7: "\<forall>row\<in>set (drop 2 ?kb). length row = 7"
    using rows by (simp only: body)
  from cc count rows7 filt len blanks show ?thesis by blast
qed


lemma sample_valid_1402_1: "valid_month sample_env 1402 1"
  by (simp add: valid_month_def days_in_month_def sample_env_def list_all_iff)

lemma sample_offset_1402_1: "start_weekday sample_env \<lparr>year = 1402, month = 1, day = 1\<rparr> = 3"
  by (simp add: start_weekday_def sample_env_def sample_weekday_def)

lemma sample_total_1402_1: "days_in_month sample_env 1402 1 = 31"
  by (simp add: days_in_month_def)

theorem calendar_grid_shape_witness:
  "valid_month sample_env 1402 1 \<and>
   (\<exists>kb. create_calendar sample_env sample_picker (Some 1402) (Some 1) = Inr kb \<and>
      length kb = 7 \<and> (\<forall>row\<in>set (drop 2 kb). length row = 7) \<and>
      length (filter (\<lambda>b. btn_text b \<noteq> lit '' '') (concat (drop 2 kb))) = 31 \<and>
      (\<forall>b\<in>set (concat (drop 2 kb)). btn_text b = lit '' '' \<longrightarrow> callback_data b = lit ''ignore''))"
proof -
  from calendar_grid_shape [OF sample_valid_1402_1, of sample_picker]
  obtain kb where cc: "create_calendar sample_env sample_picker (Some 1402) (Some 1) = Inr kb"
    and n: "int (length kb) = 2 + \<lceil>real_of_int (3 + 31) / 7\<rceil>"
    and rows: "\<forall>row\<in>set (drop 2 kb). length row = 7"
    and days: "int (length (filter (\<lambda>b. btn_text b \<noteq> lit '' '') (concat (drop 2 kb)))) = 31"
    and blanks: "\<forall>b\<in>set (concat (drop 2 kb)). btn_text b = lit '' '' \<longrightarrow> callback_data b = lit ''ignore''"
    unfolding sample_offset_1402_1 sample_total_1402_1 by blast
  have "\<lceil>real_of_int (3 + 31) / 7\<rceil> = 5" by (simp add: ceiling_eq_iff)
  with n have "length kb = 7" by simp
  moreover from days have "length (filter (\<lambda>b. btn_text b \<noteq> lit '' '') (concat (drop 2 kb))) = 31"
    by simp
  ultimately show ?thesis using sample_valid_1402_1 cc rows blanks by blast
qed

text \<open>The first day row of a valid month starts with the blanks and has day 1 right after.\<close>

lemma first_row:
  assumes "valid_month E y m"
  shows "\<exists>kb. create_calendar E self (Some y) (Some m) = Inr kb \<and>
     take (nat (start_weekday E \<lparr>year = y, month = m, day = 1\<rparr>)) (kb ! 2) =
       replicate (nat (start_weekday E \<lparr>year = y, month = m, day = 1\<rparr>)) blank \<and>
     (kb ! 2) ! nat (start_weekday E \<lparr>year = y, month = m, day = 1\<rparr>) = day_cell E self y m 1"
proof -
  let ?off = "nat (start_weekday E \<lparr>year = y, month = m, day = 1\<rparr>)"
  let ?total = "days_in_month E y m"
  from create_calendar_grid [OF assms, of self]
  obtain body pad where cc: "create_calendar E self (Some y) (Some m) =
        Inr (header_row self (months ! nat (m - 1)) y m # weekday_row self # body)"
    and rows: "\<forall>r\<in>set body. length r = 7"
    and flat: "concat body = replicate ?off blank @
        map (day_cell E self y m) [1 .. ?total] @ replicate pad blank"
    by blast
  have "1 \<le> ?total" using days_in_month_cases [of E y m] by auto
  then have days: "[1 .. ?total] = 1 # [2 .. ?total]" by (simp add: upto_rec1)
  let ?tl = "map (day_cell E self y m) [2 .. ?total] @ replicate pad blank"
  have flat': "concat body = replicate ?off blank @ day_cell E self y m 1 # ?tl"
    by (simp add: flat days)
  then obtain r0 rest where body: "body = r0 # rest" by (cases body) auto
  with rows have len: "length r0 = 7" by simp
  have lt: "?off < 7"
    using start_weekday_range [of E "\<lparr>year = y, month = m, day = 1\<rparr>"]
    by (simp add: nat_less_iff)
  from flat' body have "r0 @ concat rest = replicate ?off blank @ day_cell E self y m 1 # ?tl"
    by simp
  then have r0: "r0 = take 7 (replicate ?off blank @ day_cell E self y m 1 # ?tl)"
    using len by (metis append_eq_conv_conj)
  have "take ?off r0 = replicate ?off blank" using lt by (simp add: r0 take_take min_def)
  moreover have "r0 ! ?off = day_cell E self y m 1" using lt by (simp add: r0 nth_append)
  ultimately show ?thesis using cc body by simp
qed

text \<open>
  Claim C5. For every valid month, the column of day 1 is
  (weekday + 2) mod 7, where weekday is \<open>to_gregorian().weekday()\<close> of the first day of
  the month (0 = Monday .. 6 = Sunday); it lies between 0 and 6; and in the first day row
  of the keyboard that many blank cells come before the cell of day 1.
\<close>

theorem first_weekday_offset:
  assumes "valid_month E y m"
  shows "\<exists>first_day kb.
     JalaliDate E y m 1 = Inr first_day \<and>
     create_calendar E self (Some y) (Some m) = Inr kb \<and>
     start_weekday E first_day = (gregorian_weekday E first_day + 2) mod 7 \<and>
     0 \<le> start_weekday E first_day \<and> start_weekday E first_day \<le> 6 \<and>
     take (nat (start_weekday E first_day)) (kb ! 2) =
       replicate (nat (start_weekday E first_day)) blank \<and>
     (kb ! 2) ! nat (start_weekday E first_day) = day_cell E self y m 1"
proof -
  let ?fd = "\<lparr>year = y, month = m, day = 1\<rparr>"
  have "JalaliDate E y m 1 = Inr ?fd"
    using valid_month_first [OF assms] by (simp add: JalaliDate_def)
  moreover have "start_weekday E ?fd = (gregorian_weekday E ?fd + 2) mod 7"
    by (simp add: start_weekday_def)
  ultimately show ?thesis
    using first_row [OF assms, of self] start_weekday_range [of E ?fd] by blast
qed

theorem first_weekday_offset_witness:
  "valid_month sample_env 1402 1 \<and>
   gregorian_weekday sample_env \<lparr>year = 1402, month = 1, day = 1\<rparr> = 1 \<and>
   (\<exists>kb. create_calendar sample_env sample_picker (Some 1402) (Some 1) = Inr kb \<and>
      take 3 (kb ! 2) = [blank, blank, blank] \<and>
      (kb ! 2) ! 3 = day_cell sample_env sample_picker 1402 1 1)"
proof -
  have fd: "JalaliDate sample_env 1402 1 1 = Inr \<lparr>year = 1402, month = 1, day = 1\<rparr>"
    by (simp add: JalaliDate_def sample_env_def)
  have w: "gregorian_weekday sample_env \<lparr>year = 1402, month = 1, day = 1\<rparr> = 1"
    by (simp add: sample_env_def sample_weekday_def)
  from first_weekday_offset [OF sample_valid_1402_1, of sample_picker]
  obtain kb where "create_calendar sample_env sample_picker (Some 1402) (Some 1) = Inr kb"
    and "take (nat 3) (kb ! 2) = replicate (nat 3) blank"
    and "(kb ! 2) ! nat 3 = day_cell sample_env sample_picker 1402 1 1"
    unfolding fd using sample_offset_1402_1 by auto
  then show ?thesis using sample_valid_1402_1 w by (auto simp: numeral_3_eq_3)
qed

section \<open>Days in a month\<close>

text \<open>
  Claim C2. For every year and every month from 1 to 12, the number of days is 31 for
  months 1 to 6, 30 for months 7 to 11, and for month 12 it is 30 when the year is a leap
  year and 29 otherwise. It is the number \<open>create_calendar\<close> uses: the keyboard of a valid
  month carries the day tokens of days 1 to that number, and no other.
\<close>

theorem days_in_month_rule:
  "(1 \<le> m \<and> m \<le> 6 \<longrightarrow> days_in_month E y m = 31) \<and>
   (7 \<le> m \<and> m \<le> 11 \<longrightarrow> days_in_month E y m = 30) \<and>
   (m = 12 \<longrightarrow> days_in_month E y m = (if is_leap E y then 30 else 29)) \<and>
   (valid_month E y m \<longrightarrow>
      (\<exists>kb. create_calendar E self (Some y) (Some m) = Inr kb \<and>
         map callback_data (filter (\<lambda>b. btn_text b \<noteq> lit '' '') (concat (drop 2 kb))) =
           map (day_data self y m) [1 .. days_in_month E y m]))"
proof -
  have rule: "(1 \<le> m \<and> m \<le> 6 \<longrightarrow> days_in_month E y m = 31) \<and>
      (7 \<le> m \<and> m \<le> 11 \<longrightarrow> days_in_month E y m = 30) \<and>
      (m = 12 \<longrightarrow> days_in_month E y m = (if is_leap E y then 30 else 29))"
    by (simp add: days_in_month_def)
  have "\<exists>kb. create_calendar E self (Some y) (Some m) = Inr kb \<and>
         map callback_data (filter (\<lambda>b. btn_text b \<noteq> lit '' '') (concat (drop 2 kb))) =
           map (day_data self y m) [1 .. days_in_month E y m]" if v: "valid_month E y m"
  proof -
    from create_calendar_grid [OF v, of self]
    obtain body pad where cc: "create_calendar E self (Some y) (Some m) =
          Inr (header_row self (months ! nat (m - 1)) y m # weekday_row self # body)"
      and flat: "concat body = replicate (nat (start_weekday E \<lparr>year = y, month = m, day = 1\<rparr>)) blank @
          map (day_cell E self y m) [1 .. days_in_month E y m] @ replicate pad blank"
      by blast
    have "map callback_data (filter (\<lambda>b. btn_text b \<noteq> lit '' '') (concat body)) =
        map (day_data self y m) [1 .. days_in_month E y m]"
      by (simp only: flat filter_cells) (simp add: day_cell_data)
    with cc show ?thesis by simp
  qed
  with rule show ?thesis by blast
qed

lemma sample_valid_1403_12: "valid_month sample_env 1403 12"
  by (simp add: valid_month_def days_in_month_def sample_env_def sample_leap_def list_all_iff)

theorem days_in_month_rule_witness:
  "days_in_month sample_env 1402 3 = 31 \<and> days_in_month sample_env 1402 9 = 30 \<and>
   is_leap sample_env 1403 \<and> days_in_month sample_env 1403 12 = 30 \<and>
   \<not> is_leap sample_env 1402 \<and> days_in_month sample_env 1402 12 = 29 \<and>
   valid_month sample_env 1403 12 \<and>
   (\<exists>kb. create_calendar sample_env sample_picker (Some 1403) (Some 12) = Inr kb \<and>
      length (filter (\<lambda>b. btn_text b \<noteq> lit '' '') (concat (drop 2 kb))) = 30)"
proof -
  have l: "is_leap sample_env 1403" "\<not> is_leap sample_env 1402"
    by (simp_all add: sample_env_def sample_leap_def)
  have a: "days_in_month sample_env 1402 3 = 31" "days_in_month sample_env 1402 9 = 30"
    "days_in_month sample_env 1403 12 = 30" "days_in_month sample_env 1402 12 = 29"
    using days_in_month_rule [of 3 sample_env 1402 sample_picker]
      days_in_month_rule [of 9 sample_env 1402 sample_picker]
      days_in_month_rule [of 12 sample_env 1403 sample_picker]
      days_in_month_rule [of 12 sample_env 1402 sample_picker] l
    by simp_all
  from days_in_month_rule [of 12 sample_env 1403 sample_picker] sample_valid_1403_12
  obtain kb where cc: "create_calendar sample_env sample_picker (Some 1403) (Some 12) = Inr kb"
    and "map callback_data (filter (\<lambda>b. btn_text b \<noteq> lit '' '') (concat (drop 2 kb))) =
      map (day_data sample_picker 1403 12) [1 .. 30]"
    unfolding a by blast
  then have "length (map callback_data (filter (\<lambda>b. btn_text b \<noteq> lit '' '') (concat (drop 2 kb)))) =
      length (map (day_data sample_picker 1403 12) [1 .. 30])" by simp
  then have "length (filter (\<lambda>b. btn_text b \<noteq> lit '' '') (concat (drop 2 kb))) = 30" by simp
  with cc a l sample_valid_1403_12 show ?thesis by blast
qed

section \<open>Selecting a day\<close>

lemma py_str_examples:
  "py_str 1402 = lit ''1402''" "py_str 1403 = lit ''1403''" "py_str 1401 = lit ''1401''"
  "py_str 1 = lit ''1''" "py_str 5 = lit ''5''" "py_str 12 = lit ''12''"
  "py_str 13 = lit ''13''" "py_str 40 = lit ''40''" "py_str 4 = lit ''4''" "py_str 2 = lit ''2''"
  by (simp_all add: py_str_def digits.simps lit_def)

lemma sample_pattern: "callback_pattern sample_picker = lit ''cal''"
  by (simp add: sample_picker_def init_def)

lemma sample_pattern_no_sep: "95 \<notin> set (callback_pattern sample_picker)"
  by (simp add: sample_pattern lit_def)

lemma nth_cells:
  assumes "1 \<le> d" "d \<le> t" "0 \<le> off"
  shows "(replicate (nat off) blank @ map f [1 .. t] @ replicate p blank) ! nat (off + d - 1) = f d"
proof -
  let ?k = "nat (d - 1)"
  have idx: "nat (off + d - 1) = nat off + ?k" using assms by (simp add: nat_add_distrib)
  have k: "?k < length [1 .. t]" using assms by simp
  have "[1 .. t] ! ?k = 1 + int ?k" using assms by (intro nth_upto) simp
  then have "[1 .. t] ! ?k = d" using assms by simp
  then have "(map f [1 .. t] @ replicate p blank) ! ?k = f d"
    using k by (simp add: nth_append)
  then show ?thesis by (simp add: idx nth_append)
qed

text \<open>
  Claim C3. Round trip: for every valid month \<open>(y, m)\<close>, every day \<open>d\<close> of it and every
  prefix without the underscore, the cell of day \<open>d\<close> in the keyboard of
  \<open>create_calendar\<close> carries the token \<open>{prefix}_day_{y}_{m}_{d}\<close>, and
  \<open>process_selection\<close> with the same prefix returns, for that token, exactly the string
  \<open>{y}/{m}/{d}\<close>, each number written as \<open>str\<close> writes it (decimal, no leading zeros).
\<close>

theorem selection_round_trip:
  assumes "valid_month E y m" "1 \<le> d" "d \<le> days_in_month E y m"
    and "95 \<notin> set (callback_pattern self)"
  shows "\<exists>kb. create_calendar E self (Some y) (Some m) = Inr kb \<and>
     concat (drop 2 kb) ! nat (start_weekday E \<lparr>year = y, month = m, day = 1\<rparr> + d - 1) =
       day_cell E self y m d \<and>
     callback_data (day_cell E self y m d) =
       callback_pattern self @ lit ''_day_'' @ py_str y @ lit ''_'' @ py_str m @ lit ''_'' @ py_str d \<and>
     process_selection E self (callback_data (day_cell E self y m d)) =
       ([Answer], Inr (Some (py_str y @ lit ''/'' @ py_str m @ lit ''/'' @ py_str d)))"
proof -
  let ?off = "start_weekday E \<lparr>year = y, month = m, day = 1\<rparr>"
  from create_calendar_grid [OF assms(1), of self]
  obtain body pad where cc: "create_calendar E self (Some y) (Some m) =
        Inr (header_row self (months ! nat (m - 1)) y m # weekday_row self # body)"
    and flat: "concat body = replicate (nat ?off) blank @
        map (day_cell E self y m) [1 .. days_in_month E y m] @ replicate pad blank"
    by blast
  have "0 \<le> ?off" using start_weekday_range [of E] by simp
  then have cell: "concat body ! nat (?off + d - 1) = day_cell E self y m d"
    unfolding flat using assms(2,3) by (intro nth_cells) simp_all
  have data: "callback_data (day_cell E self y m d) =
      callback_pattern self @ lit ''_day_'' @ py_str y @ lit ''_'' @ py_str m @ lit ''_'' @ py_str d"
    by (simp add: day_cell_data day_data_def)
  have "process_selection E self (callback_data (day_cell E self y m d)) =
      ([Answer], Inr (Some (py_str y @ lit ''/'' @ py_str m @ lit ''/'' @ py_str d)))"
    unfolding data using assms(4) by (intro select_day py_str_no_sep py_int_py_str)
  with cc cell data show ?thesis by simp
qed

theorem selection_round_trip_witness:
  "valid_month sample_env 1402 1 \<and> (1::int) \<le> 5 \<and> 5 \<le> days_in_month sample_env 1402 1 \<and>
   95 \<notin> set (callback_pattern sample_picker) \<and>
   (\<exists>kb. create_calendar sample_env sample_picker (Some 1402) (Some 1) = Inr kb \<and>
      callback_data (concat (drop 2 kb) ! 7) = lit ''cal_day_1402_1_5'') \<and>
   process_selection sample_env sample_picker (lit ''cal_day_1402_1_5'') =
     ([Answer], Inr (Some (lit ''1402/1/5'')))"
proof -
  have d: "(1::int) \<le> 5" "5 \<le> days_in_month sample_env 1402 1"
    by (simp_all add: sample_total_1402_1)
  have tok: "callback_pattern sample_picker @ lit ''_day_'' @ py_str 1402 @ lit ''_'' @ py_str 1 @
      lit ''_'' @ py_str 5 = lit ''cal_day_1402_1_5''"
    by (simp add: sample_pattern py_str_examples) (simp add: lit_def)
  have res: "py_str 1402 @ lit ''/'' @ py_str 1 @ lit ''/'' @ py_str 5 = lit ''1402/1/5''"
    by (simp add: py_str_examples) (simp add: lit_def)
  have idx: "nat (3 + 5 - 1) = 7" by simp
  from selection_round_trip [OF sample_valid_1402_1 d sample_pattern_no_sep]
  obtain kb where "create_calendar sample_env sample_picker (Some 1402) (Some 1) = Inr kb"
    and "concat (drop 2 kb) ! 7 = day_cell sample_env sample_picker 1402 1 5"
    and "callback_data (day_cell sample_env sample_picker 1402 1 5) = lit ''cal_day_1402_1_5''"
    and "process_selection sample_env sample_picker (lit ''cal_day_1402_1_5'') =
       ([Answer], Inr (Some (lit ''1402/1/5'')))"
    unfolding sample_offset_1402_1 tok res idx by auto
  then show ?thesis using sample_valid_1402_1 d sample_pattern_no_sep by auto
qed

section \<open>Holidays\<close>

text \<open>
  Claim C4. A date is a holiday if and only if its unpadded string \<open>{year}/{month}/{day}\<close>
  is a key of the holiday dictionary or its Gregorian weekday is 4 (Friday, with
  0 = Monday); each of the two criteria suffices on its own. The label of the day's cell
  shows the mark exactly in that case.
\<close>

theorem is_holiday_iff:
  "(is_holiday E self \<lparr>year = y, month = m, day = d\<rparr> \<longleftrightarrow>
      py_str y @ lit ''/'' @ py_str m @ lit ''/'' @ py_str d \<in> dom (holidays self) \<or>
      gregorian_weekday E \<lparr>year = y, month = m, day = d\<rparr> = 4) \<and>
   btn_text (day_cell E self y m d) =
     (if py_str y @ lit ''/'' @ py_str m @ lit ''/'' @ py_str d \<in> dom (holidays self) \<or>
         gregorian_weekday E \<lparr>year = y, month = m, day = d\<rparr> = 4
      then 128308 # py_str d else py_str d)"
  by (auto simp: is_holiday_def date_str_def day_cell_def day_button_def)

theorem is_holiday_iff_witness:
  "lit ''1402/1/1'' \<in> dom (holidays sample_picker) \<and>
   gregorian_weekday sample_env \<lparr>year = 1402, month = 1, day = 1\<rparr> \<noteq> 4 \<and>
   is_holiday sample_env sample_picker \<lparr>year = 1402, month = 1, day = 1\<rparr> \<and>
   lit ''1402/1/4'' \<notin> dom (holidays sample_picker) \<and>
   gregorian_weekday sample_env \<lparr>year = 1402, month = 1, day = 4\<rparr> = 4 \<and>
   is_holiday sample_env sample_picker \<lparr>year = 1402, month = 1, day = 4\<rparr> \<and>
   \<not> is_holiday sample_env sample_picker \<lparr>year = 1402, month = 1, day = 2\<rparr>"
proof -
  have k: "py_str 1402 @ lit ''/'' @ py_str 1 @ lit ''/'' @ py_str 1 = lit ''1402/1/1''"
    "py_str 1402 @ lit ''/'' @ py_str 1 @ lit ''/'' @ py_str 4 = lit ''1402/1/4''"
    "py_str 1402 @ lit ''/'' @ py_str 1 @ lit ''/'' @ py_str 2 = lit ''1402/1/2''"
    by (simp_all add: py_str_examples) (simp_all add: lit_def)
  have h: "lit ''1402/1/1'' \<in> dom (holidays sample_picker)"
    "lit ''1402/1/4'' \<notin> dom (holidays sample_picker)"
    "lit ''1402/1/2'' \<notin> dom (holidays sample_picker)"
    by (simp_all add: sample_picker_def init_def lit_def)
  have w: "gregorian_weekday sample_env \<lparr>year = 1402, month = 1, day = 1\<rparr> = 1"
    "gregorian_weekday sample_env \<lparr>year = 1402, month = 1, day = 4\<rparr> = 4"
    "gregorian_weekday sample_env \<lparr>year = 1402, month = 1, day = 2\<rparr> = 2"
    by (simp_all add: sample_env_def sample_weekday_def)
  show ?thesis
    using is_holiday_iff [of sample_env sample_picker 1402 1 1]
      is_holiday_iff [of sample_env sample_picker 1402 1 4]
      is_holiday_iff [of sample_env sample_picker 1402 1 2]
    unfolding k by (simp add: h w)
qed

section \<open>Decoding: prefix, navigation, selection, malformed tokens\<close>

text \<open>For a prefix without the underscore, the data starts with the prefix exactly when
  its first field does.\<close>

lemma startswith_first_field:
  "95 \<notin> set c \<Longrightarrow> startswith (hd (py_split 95 data)) c = startswith data c"
proof (induction data c rule: startswith.induct)
  case (1 s)
  then show ?case by simp
next
  case (2 p ps)
  then show ?case by simp
next
  case (3 d ds p ps)
  show ?case
  proof (cases "d = 95")
    case True
    with "3.prems" show ?thesis by auto
  next
    case False
    obtain f fs where sp: "py_split 95 ds = f # fs"
      using py_split_nonempty [of 95 ds] by (cases "py_split 95 ds") auto
    from "3.prems" have "95 \<notin> set ps" by simp
    with "3.IH" have "startswith (hd (py_split 95 ds)) ps = startswith ds ps" by simp
    with False sp show ?thesis by simp
  qed
qed

text \<open>
  The test of \<open>process_selection\<close> is \<open>startswith\<close>, not equality of the prefix field: the
  token \<open>calendar_day_1402_1_5\<close>, whose prefix field is \<open>calendar\<close>, passes the test of a
  picker configured with \<open>cal\<close> and is decoded to the date \<open>1402/1/5\<close>.
\<close>

theorem prefix_extension_is_decoded:
  "hd (py_split 95 (lit ''calendar_day_1402_1_5'')) = lit ''calendar'' \<and>
   lit ''calendar'' \<noteq> callback_pattern sample_picker \<and>
   process_selection sample_env sample_picker (lit ''calendar_day_1402_1_5'') =
     ([Answer], Inr (Some (lit ''1402/1/5'')))"
proof -
  have sw: "startswith (lit ''calendar_day_1402_1_5'') (callback_pattern sample_picker)"
    by (simp add: sample_pattern lit_def)
  have sp: "py_split 95 (lit ''calendar_day_1402_1_5'') =
      lit ''calendar'' # lit ''day'' # [lit ''1402'', lit ''1'', lit ''5'']"
    by (simp add: lit_def)
  have i: "py_int sample_env (lit ''1402'') = Inr 1402" "py_int sample_env (lit ''1'') = Inr 1"
    "py_int sample_env (lit ''5'') = Inr 5"
    using py_int_py_str [of sample_env 1402] py_int_py_str [of sample_env 1]
      py_int_py_str [of sample_env 5]
    by (simp_all add: py_str_examples)
  have res: "py_str 1402 @ lit ''/'' @ py_str 1 @ lit ''/'' @ py_str 5 = lit ''1402/1/5''"
    by (simp add: py_str_examples) (simp add: lit_def)
  have "process_selection sample_env sample_picker (lit ''calendar_day_1402_1_5'') =
      ([Answer], Inr (Some (lit ''1402/1/5'')))"
    using process_day_split [OF sw sp, of sample_env] by (simp add: unpack3_def i res)
  moreover have "lit ''calendar'' \<noteq> callback_pattern sample_picker"
    by (simp add: sample_pattern lit_def)
  ultimately show ?thesis by (simp add: sp)
qed

text \<open>
  Claim C7, as amended. Prefix isolation: a token that does not start with the configured
  prefix is a no-op: \<open>process_selection\<close> answers the query, edits nothing and returns
  \<open>None\<close>. For a configured prefix without the underscore, a token starts with it exactly
  when its prefix field (the first field) starts with it, so every token whose prefix
  field does not start with the configured prefix is a no-op. The example is the token
  \<open>other_day_1402_1_5\<close> against the prefix \<open>cal\<close>.
\<close>

theorem prefix_isolation:
  "(\<not> startswith data (callback_pattern self) \<longrightarrow>
      process_selection E self data = ([Answer], Inr None)) \<and>
   (95 \<notin> set (callback_pattern self) \<longrightarrow>
      startswith data (callback_pattern self) =
        startswith (hd (py_split 95 data)) (callback_pattern self)) \<and>
   (95 \<notin> set (callback_pattern self) \<and>
    \<not> startswith (hd (py_split 95 data)) (callback_pattern self) \<longrightarrow>
      process_selection E self data = ([Answer], Inr None))"
proof -
  have gate: "process_selection E self data = ([Answer], Inr None)"
    if "\<not> startswith data (callback_pattern self)"
    using that by (simp add: process_selection_def)
  have field: "startswith data (callback_pattern self) =
      startswith (hd (py_split 95 data)) (callback_pattern self)"
    if "95 \<notin> set (callback_pattern self)"
    using startswith_first_field [OF that, of data] by simp
  from gate field show ?thesis by blast
qed

theorem prefix_isolation_witness:
  "\<not> startswith (lit ''other_day_1402_1_5'') (callback_pattern sample_picker) \<and>
   95 \<notin> set (callback_pattern sample_picker) \<and>
   hd (py_split 95 (lit ''other_day_1402_1_5'')) = lit ''other'' \<and>
   \<not> startswith (lit ''other'') (callback_pattern sample_picker) \<and>
   process_selection sample_env sample_picker (lit ''other_day_1402_1_5'') = ([Answer], Inr None)"
proof -
  have n: "\<not> startswith (lit ''other_day_1402_1_5'') (callback_pattern sample_picker)"
    by (simp add: sample_pattern lit_def)
  have f: "hd (py_split 95 (lit ''other_day_1402_1_5'')) = lit ''other''"
    by (simp add: lit_def)
  have nf: "\<not> startswith (lit ''other'') (callback_pattern sample_picker)"
    by (simp add: sample_pattern lit_def)
  from prefix_isolation [of "lit ''other_day_1402_1_5''" sample_picker sample_env]
    n f nf sample_pattern_no_sep
  show ?thesis by simp
qed

lemma sample_valid_1403_1: "valid_month sample_env 1403 1"
  by (simp add: valid_month_def days_in_month_def sample_env_def list_all_iff)

lemma sample_valid_1401_12: "valid_month sample_env 1401 12"
  by (simp add: valid_month_def days_in_month_def sample_env_def sample_leap_def list_all_iff)

text \<open>The tokens on the two arrows of the header row.\<close>

lemma header_tokens:
  assumes "valid_month E y m"
  shows "\<exists>kb. create_calendar E self (Some y) (Some m) = Inr kb \<and>
     callback_data (kb ! 0 ! 0) = nav_data self ''prev'' y m \<and>
     callback_data (kb ! 0 ! 2) = nav_data self ''next'' y m"
  using create_calendar_grid [OF assms, of self] by (auto simp: header_row_def)

text \<open>
  Claim C6. Navigation wrap, for a prefix without the underscore (the delimiter, which a
  token prefix must not contain) and a month \<open>m\<close> from 1 to 12: decoding the next token
  of \<open>(y, m)\<close> re-renders \<open>(y + 1, 1)\<close> when \<open>m = 12\<close> and \<open>(y, m + 1)\<close> otherwise;
  decoding the prev token re-renders \<open>(y - 1, 12)\<close> when \<open>m = 1\<close> and \<open>(y, m - 1)\<close>
  otherwise. Re-rendering a valid month means: the query is answered, the message is
  edited with the keyboard of that month, and \<open>None\<close> is returned. Whatever the target
  month, a navigation token never yields a selected date.
\<close>

theorem navigation_wrap:
  assumes "95 \<notin> set (callback_pattern self)" "1 \<le> m" "m \<le> 12"
  shows
    "process_selection E self (nav_data self ''next'' y m) =
       rerender E self (if m = 12 then y + 1 else y) (if m = 12 then 1 else m + 1) \<and>
     process_selection E self (nav_data self ''prev'' y m) =
       rerender E self (if m = 1 then y - 1 else y) (if m = 1 then 12 else m - 1) \<and>
     (valid_month E (if m = 12 then y + 1 else y) (if m = 12 then 1 else m + 1) \<longrightarrow>
        (\<exists>kb. create_calendar E self (Some (if m = 12 then y + 1 else y))
                 (Some (if m = 12 then 1 else m + 1)) = Inr kb \<and>
              process_selection E self (nav_data self ''next'' y m) =
                ([Answer, EditReplyMarkup kb], Inr None))) \<and>
     (valid_month E (if m = 1 then y - 1 else y) (if m = 1 then 12 else m - 1) \<longrightarrow>
        (\<exists>kb. create_calendar E self (Some (if m = 1 then y - 1 else y))
                 (Some (if m = 1 then 12 else m - 1)) = Inr kb \<and>
              process_selection E self (nav_data self ''prev'' y m) =
                ([Answer, EditReplyMarkup kb], Inr None))) \<and>
     (\<forall>s. snd (process_selection E self (nav_data self ''next'' y m)) \<noteq> Inr (Some s)) \<and>
     (\<forall>s. snd (process_selection E self (nav_data self ''prev'' y m)) \<noteq> Inr (Some s))"
proof -
  have nxt: "process_selection E self (nav_data self ''next'' y m) =
      rerender E self (if m = 12 then y + 1 else y) (if m = 12 then 1 else m + 1)"
    using nav_decoded(2) [OF assms(1), of E y m] assms(2,3) by auto
  have prv: "process_selection E self (nav_data self ''prev'' y m) =
      rerender E self (if m = 1 then y - 1 else y) (if m = 1 then 12 else m - 1)"
    using nav_decoded(1) [OF assms(1), of E y m] assms(2,3) by auto
  show ?thesis
    unfolding nxt prv using rerender_valid [of E _ _ self] rerender_no_selection [of E self]
    by blast
qed

theorem navigation_wrap_witness:
  "95 \<notin> set (callback_pattern sample_picker) \<and>
   valid_month sample_env 1403 1 \<and> valid_month sample_env 1401 12 \<and>
   (\<exists>kb. create_calendar sample_env sample_picker (Some 1403) (Some 1) = Inr kb \<and>
      process_selection sample_env sample_picker (lit ''cal_next_1402_12'') =
        ([Answer, EditReplyMarkup kb], Inr None)) \<and>
   (\<exists>kb. create_calendar sample_env sample_picker (Some 1401) (Some 12) = Inr kb \<and>
      process_selection sample_env sample_picker (lit ''cal_prev_1402_1'') =
        ([Answer, EditReplyMarkup kb], Inr None))"
proof -
  have n: "nav_data sample_picker ''next'' 1402 12 = lit ''cal_next_1402_12''"
    by (simp add: nav_data_def sample_pattern py_str_examples) (simp add: lit_def)
  have p: "nav_data sample_picker ''prev'' 1402 1 = lit ''cal_prev_1402_1''"
    by (simp add: nav_data_def sample_pattern py_str_examples) (simp add: lit_def)
  have t: "(if (12::int) = 12 then 1402 + 1 else 1402) = (1403::int)"
    "(if (12::int) = 12 then 1 else 12 + 1) = (1::int)"
    "(if (1::int) = 1 then 1402 - 1 else 1402) = (1401::int)"
    "(if (1::int) = 1 then 12 else 1 - 1) = (12::int)"
    by simp_all
  have b: "(1::int) \<le> 12" "(12::int) \<le> 12" "(1::int) \<le> 1" by simp_all
  show ?thesis
    using navigation_wrap [OF sample_pattern_no_sep b(1) b(2), of sample_env 1402, unfolded t n]
      navigation_wrap [OF sample_pattern_no_sep b(3) b(1), of sample_env 1402, unfolded t p]
      sample_valid_1403_1 sample_valid_1401_12 sample_pattern_no_sep
    by blast
qed

text \<open>
  Claim C8. A token made of the configured prefix (without the underscore), one of the
  actions \<open>prev\<close>, \<open>next\<close>, \<open>day\<close>, and argument fields of which one is not accepted by
  \<open>int()\<close> makes \<open>process_selection\<close> raise \<open>ValueError\<close> to its caller, once the query
  is answered: the outcome is neither a no-op nor a date.
\<close>

theorem malformed_fields_raise:
  assumes "95 \<notin> set (callback_pattern self)"
    and "action = lit ''prev'' \<or> action = lit ''next'' \<or> action = lit ''day''"
    and "\<forall>a\<in>set args. 95 \<notin> set a"
    and "f \<in> set args" "py_int E f = Inl ValueError"
  shows "process_selection E self (join_fields (callback_pattern self # action # args)) =
     ([Answer], Inl ValueError)"
proof -
  let ?data = "join_fields (callback_pattern self # action # args)"
  have "95 \<notin> set action" using assms(2) lit_no_sep by auto
  then have sp: "py_split 95 ?data = callback_pattern self # action # args"
    using assms(1,3) by (intro split_join) simp_all
  have sw: "startswith ?data (callback_pattern self)" by (rule startswith_join)
  from assms(2) show ?thesis
  proof (elim disjE)
    assume "action = lit ''prev''"
    then show ?thesis
      using process_prev_split [OF sw, of _ args E] sp unpack2_bad_field [OF assms(4,5)] by simp
  next
    assume "action = lit ''next''"
    then show ?thesis
      using process_next_split [OF sw, of _ args E] sp unpack2_bad_field [OF assms(4,5)] by simp
  next
    assume "action = lit ''day''"
    then show ?thesis
      using process_day_split [OF sw, of _ args E] sp unpack3_bad_field [OF assms(4,5)] by simp
  qed
qed

theorem malformed_fields_raise_witness:
  "95 \<notin> set (callback_pattern sample_picker) \<and>
   py_int sample_env (lit ''x'') = Inl ValueError \<and>
   process_selection sample_env sample_picker (lit ''cal_day_1402_x_5'') = ([Answer], Inl ValueError)"
proof -
  have bad: "py_int sample_env (lit ''x'') = Inl ValueError"
    by (simp add: py_int_def py_strip_def is_space_def ascii_space_def int_unsigned_def
        decimal_value_def lit_def)
  have fs: "\<forall>a\<in>set [lit ''1402'', lit ''x'', lit ''5'']. 95 \<notin> set a"
    by (simp add: lit_def)
  have mem: "lit ''x'' \<in> set [lit ''1402'', lit ''x'', lit ''5'']" by simp
  have tok: "join_fields (callback_pattern sample_picker # lit ''day'' # [lit ''1402'', lit ''x'', lit ''5'']) =
      lit ''cal_day_1402_x_5''"
    by (simp add: sample_pattern lit_def)
  from malformed_fields_raise [OF sample_pattern_no_sep _ fs mem bad, of "lit ''day''"]
  show ?thesis using bad sample_pattern_no_sep unfolding tok by simp
qed

section \<open>Table lookups\<close>

text \<open>
  Month 0 lies outside 1..12, yet \<open>_get_persian_month_name(0)\<close> does not fail: the index
  \<open>-1\<close> reads the last entry of the table, the name of month 12.
\<close>

theorem month_zero_has_a_name:
  "get_persian_month_name 0 = Inr [1575, 1587, 1601, 1606, 1583]"
  by (simp add: get_persian_month_name_def py_getitem_def months_def)

text \<open>
  Claim C9, as amended. \<open>_get_persian_month_name(month)\<close> returns the table entry at index
  \<open>month - 1\<close> for every month from 1 to 12 and fails with \<open>IndexError\<close> for every month
  from 13 on and for every month up to \<open>-12\<close>; for a month from \<open>-11\<close> to 0 it returns the
  entry at index \<open>month + 11\<close>. Likewise indexing the weekday labels with a column from 0 to
  6 returns that label, fails with \<open>IndexError\<close> from 7 on and up to \<open>-8\<close>, and for a
  column from \<open>-7\<close> to \<open>-1\<close> returns the label at index \<open>column + 7\<close>.
\<close>

theorem table_lookups:
  "(1 \<le> m \<and> m \<le> 12 \<longrightarrow> get_persian_month_name m = Inr (months ! nat (m - 1))) \<and>
   (m \<ge> 13 \<or> m \<le> - 12 \<longrightarrow> get_persian_month_name m = Inl IndexError) \<and>
   (- 11 \<le> m \<and> m \<le> 0 \<longrightarrow> get_persian_month_name m = Inr (months ! nat (m + 11))) \<and>
   (0 \<le> i \<and> i \<le> 6 \<longrightarrow>
      py_getitem (weekdays (init prefix loaded)) i = Inr (weekdays (init prefix loaded) ! nat i)) \<and>
   (i \<ge> 7 \<or> i \<le> - 8 \<longrightarrow> py_getitem (weekdays (init prefix loaded)) i = Inl IndexError) \<and>
   (- 7 \<le> i \<and> i \<le> - 1 \<longrightarrow>
      py_getitem (weekdays (init prefix loaded)) i = Inr (weekdays (init prefix loaded) ! nat (i + 7)))"
proof -
  have "length months = 12" by (simp add: months_def)
  moreover have "length (weekdays (init prefix loaded)) = 7" by (simp add: init_def)
  ultimately show ?thesis
    by (auto simp: get_persian_month_name_def py_getitem_def algebra_simps)
qed

theorem table_lookups_witness:
  "get_persian_month_name 1 = Inr [1601, 1585, 1608, 1585, 1583, 1740, 1606] \<and>
   get_persian_month_name 12 = Inr [1575, 1587, 1601, 1606, 1583] \<and>
   get_persian_month_name 13 = Inl IndexError \<and>
   get_persian_month_name (- 12) = Inl IndexError \<and>
   get_persian_month_name (- 11) = Inr [1601, 1585, 1608, 1585, 1583, 1740, 1606] \<and>
   py_getitem (weekdays (init (lit ''cal'') Map.empty)) 6 = Inr [1580] \<and>
   py_getitem (weekdays (init (lit ''cal'') Map.empty)) 7 = Inl IndexError \<and>
   py_getitem (weekdays (init (lit ''cal'') Map.empty)) (- 1) = Inr [1580]"
  using table_lookups [of 1 6 "lit ''cal''" Map.empty] table_lookups [of 12 7 "lit ''cal''" Map.empty]
    table_lookups [of 13 "- 1" "lit ''cal''" Map.empty] table_lookups [of "- 12" 0 "lit ''cal''" Map.empty]
    table_lookups [of "- 11" 0 "lit ''cal''" Map.empty]
  by (simp add: months_def init_def)

section \<open>No range check in the decoder\<close>

text \<open>
  Claim C10. For every token \<open>{prefix}_day_{y}_{m}_{d}\<close> whose prefix is the configured
  one (without the underscore) and whose three fields are accepted by \<open>int()\<close> as the
  integers \<open>y\<close>, \<open>m\<close>, \<open>d\<close>, \<open>process_selection\<close> returns \<open>{y}/{m}/{d}\<close>, whatever the
  integers are: no month or day is rejected for being out of range.
\<close>

theorem decoder_no_range_check:
  assumes "95 \<notin> set (callback_pattern self)" "95 \<notin> set fy" "95 \<notin> set fm" "95 \<notin> set fd"
    and "py_int E fy = Inr y" "py_int E fm = Inr m" "py_int E fd = Inr d"
  shows "process_selection E self
           (callback_pattern self @ lit ''_day_'' @ fy @ lit ''_'' @ fm @ lit ''_'' @ fd) =
         ([Answer], Inr (Some (py_str y @ lit ''/'' @ py_str m @ lit ''/'' @ py_str d)))"
  using assms by (rule select_day)

theorem decoder_no_range_check_witness:
  "95 \<notin> set (callback_pattern sample_picker) \<and>
   py_int sample_env (lit ''1402'') = Inr 1402 \<and> py_int sample_env (lit ''13'') = Inr 13 \<and>
   py_int sample_env (lit ''40'') = Inr 40 \<and> \<not> date_ok sample_env 1402 13 40 \<and>
   process_selection sample_env sample_picker (lit ''cal_day_1402_13_40'') =
     ([Answer], Inr (Some (lit ''1402/13/40'')))"
proof -
  have i: "py_int sample_env (lit ''1402'') = Inr 1402" "py_int sample_env (lit ''13'') = Inr 13"
    "py_int sample_env (lit ''40'') = Inr 40"
    using py_int_py_str [of sample_env 1402] py_int_py_str [of sample_env 13]
      py_int_py_str [of sample_env 40]
    by (simp_all add: py_str_examples)
  have s: "95 \<notin> set (lit ''1402'')" "95 \<notin> set (lit ''13'')" "95 \<notin> set (lit ''40'')"
    by (simp_all add: lit_def)
  have tok: "callback_pattern sample_picker @ lit ''_day_'' @ lit ''1402'' @ lit ''_'' @ lit ''13'' @
      lit ''_'' @ lit ''40'' = lit ''cal_day_1402_13_40''"
    by (simp add: sample_pattern lit_def)
  have res: "py_str 1402 @ lit ''/'' @ py_str 13 @ lit ''/'' @ py_str 40 = lit ''1402/13/40''"
    by (simp add: py_str_examples) (simp add: lit_def)
  have bad: "\<not> date_ok sample_env 1402 13 40" by (simp add: sample_env_def)
  from decoder_no_range_check [OF sample_pattern_no_sep s i]
  show ?thesis using i bad sample_pattern_no_sep unfolding tok res by simp
qed

text \<open>
  The prefix of the example in the class docstring, \<open>my_calendar\<close>, holds the delimiter:
  the decoder then reads \<open>calendar\<close> as the action and ignores the token.
\<close>

lemma underscore_prefix_is_ignored:
  "process_selection E (init (lit ''my_calendar'') loaded) (lit ''my_calendar_day_1402_1_5'') =
     ([Answer], Inr None)"
  by (simp add: process_selection_def init_def py_getitem_def lit_def)

end
